theory Spec2Isabelle
  imports Main "HOL-Library.Word"
begin

section \<open>The helper script \<open>scripts/utils/swap-helpers.js\<close>\<close>

subsection \<open>JavaScript values\<close>

text \<open>
  A thrown JavaScript value. \<open>Error\<close> carries the message of \<open>new Error(msg)\<close>;
  \<open>RangeError\<close> is what \<open>BigInt(x)\<close> throws on a number that is not an integer;
  \<open>NetworkError\<close> stands for a transport-level failure of the provider (no connection,
  timeout, server error) and \<open>CallException\<close> for a call the node answered with a revert.
\<close>

datatype js_error = Error string | RangeError | NetworkError | CallException

text \<open>
  The quote handed around by the script: a \<open>bigint\<close> or \<open>null\<close> (the absent quote).
\<close>

datatype js_quote = Null | BigIntV int

text \<open>
  A JavaScript number as far as \<open>BigInt(n)\<close> distinguishes it: an integer value, or a
  value that is no integer (a fraction, \<open>NaN\<close>, an infinity).
\<close>

datatype js_number = NumInt int | NumNonInt

definition BigInt_of :: "js_number \<Rightarrow> js_error + int" where
  "BigInt_of n = (case n of NumInt i \<Rightarrow> Inr i | NumNonInt \<Rightarrow> Inl RangeError)"

text \<open>Division of two \<open>bigint\<close>s rounds towards zero.\<close>

definition bigint_quot :: "int \<Rightarrow> int \<Rightarrow> int" where
  "bigint_quot a b = sgn a * sgn b * (\<bar>a\<bar> div \<bar>b\<bar>)"

subsection \<open>Strings\<close>

text \<open>
  Strings are modelled over ASCII, where \<open>toLowerCase\<close> maps \<open>A..Z\<close> to \<open>a..z\<close> and
  leaves every other character alone.
\<close>

definition lower_char :: "char \<Rightarrow> char" where
  "lower_char c =
     (case map_of (zip ''ABCDEFGHIJKLMNOPQRSTUVWXYZ'' ''abcdefghijklmnopqrstuvwxyz'') c of
        Some l \<Rightarrow> l
      | None \<Rightarrow> c)"

definition toLowerCase :: "string \<Rightarrow> string" where
  "toLowerCase s = map lower_char s"

fun startsWith :: "string \<Rightarrow> string \<Rightarrow> bool" where
  "startsWith s [] = True"
| "startsWith [] (p # ps) = False"
| "startsWith (c # cs) (p # ps) = (c = p \<and> startsWith cs ps)"

text \<open>\<open>s.includes(sub)\<close>: \<open>sub\<close> occurs somewhere in \<open>s\<close>.\<close>

fun includes_str :: "string \<Rightarrow> string \<Rightarrow> bool" where
  "includes_str [] sub = (sub = [])"
| "includes_str (c # cs) sub = (startsWith (c # cs) sub \<or> includes_str cs sub)"

subsection \<open>\<open>calculateMinOutput\<close>\<close>

text \<open>
  \<^verbatim>\<open>function calculateMinOutput(expectedOutput, slippageBps = 100)\<close>.
  The second argument is \<open>None\<close> when the caller leaves it out.
  \<open>!expectedOutput\<close> holds for \<open>null\<close> and for \<open>0n\<close>.
\<close>

definition calculateMinOutput :: "js_quote \<Rightarrow> js_number option \<Rightarrow> js_error + int" where
  "calculateMinOutput expectedOutput slippageBps_arg =
     (let slippageBps = (case slippageBps_arg of None \<Rightarrow> NumInt 100 | Some n \<Rightarrow> n) in
      case expectedOutput of
        Null \<Rightarrow> Inr 0
      | BigIntV q \<Rightarrow>
          if q = 0 then Inr 0
          else (case BigInt_of slippageBps of
                  Inl e \<Rightarrow> Inl e
                | Inr b \<Rightarrow>
                    (let slippageMultiplier = 10000 - b;
                         minOutput = bigint_quot (q * slippageMultiplier) 10000
                     in Inr minOutput)))"

subsection \<open>Console output\<close>

text \<open>
  What the scripts print, one constructor per message:
  \<^item> \<open>Warn_could_not_get_quote\<close>: \<open>console.warn("Could not get quote, using 0 as minimum")\<close>
    in \<open>getSwapQuote\<close>;
  \<^item> \<open>Log_sepolia_bundler_protection\<close>: the two \<open>console.log\<close> lines of the Sepolia branch
    of \<open>enforcePrivateRPC\<close>;
  \<^item> \<open>Error_private_rpc_required rpcUrl privateRPC\<close>: the \<open>console.error\<close> block
    "PRODUCTION NETWORK DETECTED! Private RPC is REQUIRED ..." with the current and the
    recommended endpoint;
  \<^item> \<open>Warn_private_rpc_not_configured\<close>: the \<open>console.warn\<close> block "PRODUCTION NETWORK
    DETECTED! Private RPC is recommended but not configured. Your transactions will be
    visible in public mempool. ...";
  \<^item> \<open>Log_using_private_rpc\<close>: \<open>console.log("Using private RPC for production network")\<close>;
  \<^item> \<open>Log_expected_output\<close>, \<open>Log_minimum_output\<close>: the two lines the swap script prints
    with a quote;
  \<^item> \<open>Log_no_quote_no_protection\<close>: the swap script's
    "Could not get quote, using 0 as minimum (no slippage protection)";
  \<^item> \<open>Log_getting_swap_quote\<close>: the swap script's "Getting swap quote...";
  \<^item> \<open>Error_message e\<close>: \<open>console.error(error.message)\<close>.
\<close>

datatype js_prop = PUndefined | PNull | PStr string | PInherited string

datatype console =
    Warn_could_not_get_quote
  | Log_sepolia_bundler_protection
  | Error_private_rpc_required string js_prop
  | Warn_private_rpc_not_configured
  | Log_using_private_rpc
  | Log_expected_output int
  | Log_minimum_output int
  | Log_no_quote_no_protection
  | Log_getting_swap_quote
  | Error_message js_error

subsection \<open>\<open>isProductionNetwork\<close> and \<open>isPrivateRPC\<close>\<close>

text \<open>The chain id as the provider reports it: a \<open>bigint\<close> or a number.\<close>

datatype js_chainId = ChainBigInt int | ChainNumber int

definition isProductionNetwork :: "js_chainId \<Rightarrow> bool" where
  "isProductionNetwork chainId = (chainId = ChainBigInt 1 \<or> chainId = ChainNumber 1)"

text \<open>The endpoint is a string; the empty string is falsy (\<open>!rpcUrl\<close>).\<close>

definition isPrivateRPC :: "string \<Rightarrow> bool" where
  "isPrivateRPC rpcUrl =
     (if rpcUrl = [] then False
      else (let url = toLowerCase rpcUrl in
        includes_str url ''flashbots'' \<or>
        includes_str url ''flashtrades'' \<or>
        includes_str url ''eden'' \<or>
        includes_str url ''bloxroute'' \<or>
        includes_str url ''private'' \<or>
        includes_str url ''protect''))"

subsection \<open>\<open>PRIVATE_RPC_ENDPOINTS\<close> and \<open>getPrivateRPCUrl\<close>\<close>

text \<open>
  A property read \<open>obj[key]\<close> on an object literal: the object's own property, else what
  the key names on \<open>Object.prototype\<close> (\<open>PInherited\<close>), else \<open>undefined\<close>.
\<close>

definition Object_prototype_keys :: "string list" where
  "Object_prototype_keys =
     [''constructor'', ''__proto__'', ''hasOwnProperty'', ''isPrototypeOf'',
      ''propertyIsEnumerable'', ''toLocaleString'', ''toString'', ''valueOf'',
      ''__defineGetter__'', ''__defineSetter__'', ''__lookupGetter__'', ''__lookupSetter__'']"

definition obj_get :: "(string \<times> js_prop) list \<Rightarrow> string \<Rightarrow> js_prop" where
  "obj_get obj key =
     (case map_of obj key of
        Some v \<Rightarrow> v
      | None \<Rightarrow> if key \<in> set Object_prototype_keys then PInherited key else PUndefined)"

definition truthy :: "js_prop \<Rightarrow> bool" where
  "truthy v = (case v of PStr s \<Rightarrow> s \<noteq> [] | PInherited k \<Rightarrow> True | PNull \<Rightarrow> False
                 | PUndefined \<Rightarrow> False)"

definition flashtrades :: "(string \<times> js_prop) list" where
  "flashtrades = [(''sepolia'', PNull), (''mainnet'', PStr ''https://rpc.flashbots.net'')]"

definition flashbots :: "(string \<times> js_prop) list" where
  "flashbots = [(''mainnet'', PStr ''https://rpc.flashbots.net'')]"

definition eden :: "(string \<times> js_prop) list" where
  "eden = [(''mainnet'', PStr ''https://api.edennetwork.io/v1/rpc'')]"

definition getPrivateRPCUrl :: "string \<Rightarrow> js_prop" where
  "getPrivateRPCUrl network =
     (let networkName = toLowerCase network in
      if truthy (obj_get flashtrades networkName) then obj_get flashtrades networkName
      else if networkName = ''mainnet'' \<and> truthy (obj_get flashbots ''mainnet'')
        then obj_get flashbots ''mainnet''
      else if networkName = ''mainnet'' \<and> truthy (obj_get eden ''mainnet'')
        then obj_get eden ''mainnet''
      else PNull)"

subsection \<open>\<open>enforcePrivateRPC\<close>\<close>

text \<open>
  \<open>getNetwork\<close> is the outcome of \<open>provider.getNetwork()\<close>: the chain id, or what the
  provider throws. The function returns a boolean or throws; the console lines it printed
  come first.
\<close>

definition enforcePrivateRPC ::
  "js_error + js_chainId \<Rightarrow> string \<Rightarrow> string \<Rightarrow> console list \<times> (js_error + bool)" where
  "enforcePrivateRPC getNetwork network rpcUrl =
     (case getNetwork of
        Inl e \<Rightarrow> ([], Inl e)
      | Inr chainId \<Rightarrow>
         (let isProduction = isProductionNetwork chainId;
              networkName = toLowerCase network
          in if networkName = ''sepolia'' \<and> \<not> isPrivateRPC rpcUrl
             then ([Log_sepolia_bundler_protection], Inr False)
             else if isProduction then
               (let isPrivate = isPrivateRPC rpcUrl in
                if \<not> isPrivate then
                  (let privateRPC = getPrivateRPCUrl network in
                   if truthy privateRPC
                   then ([Error_private_rpc_required rpcUrl privateRPC],
                         Inl (Error ''Private RPC required for production network''))
                   else ([Warn_private_rpc_not_configured], Inr (isPrivateRPC rpcUrl)))
                else ([Log_using_private_rpc], Inr True))
             else ([], Inr (isPrivateRPC rpcUrl))))"

subsection \<open>\<open>getQuoteFromPool\<close> and \<open>getSwapQuote\<close>\<close>

text \<open>
  What the two functions read from outside:
  \<^item> \<open>QUOTER_V2_ADDRESS\<close>: the environment variable, \<open>None\<close> when unset;
  \<^item> \<open>quoteExactInputSingle quoter tokenIn tokenOut fee amountIn limit\<close>: the outcome of
    building the quoter contract and of its static call;
  \<^item> \<open>slot0_sqrtPriceX96 pool\<close>, \<open>token0 pool\<close>: the outcomes of the two pool reads;
  \<^item> \<open>float_amountOut sqrtPriceX96 zeroForOne amountIn\<close>: the double-precision estimate
    \<open>BigInt(Math.floor(Number(amountIn) * price))\<close> or \<open>... / price\<close>, which is not
    modelled; it throws a \<open>RangeError\<close> when the quotient is not finite.
\<close>

record quote_env =
  QUOTER_V2_ADDRESS :: "string option"
  quoteExactInputSingle ::
    "string \<Rightarrow> string \<Rightarrow> string \<Rightarrow> int \<Rightarrow> int \<Rightarrow> int \<Rightarrow> js_error + int"
  slot0_sqrtPriceX96 :: "string \<Rightarrow> js_error + int"
  token0 :: "string \<Rightarrow> js_error + string"
  float_amountOut :: "int \<Rightarrow> bool \<Rightarrow> int \<Rightarrow> js_error + int"

text \<open>
  The whole body of \<open>getQuoteFromPool\<close> is inside \<open>try\<close>; the handler returns \<open>null\<close>.
  The result is \<open>Inl\<close> if the function throws.
\<close>

definition getQuoteFromPool ::
  "quote_env \<Rightarrow> string \<Rightarrow> string \<Rightarrow> string \<Rightarrow> int \<Rightarrow> js_error + js_quote" where
  "getQuoteFromPool E poolAddress tokenIn tokenOut amountIn =
     (case
        (case slot0_sqrtPriceX96 E poolAddress of
           Inl e \<Rightarrow> Inl e
         | Inr sqrtPriceX96 \<Rightarrow>
            (case token0 E poolAddress of
               Inl e \<Rightarrow> Inl e
             | Inr t0 \<Rightarrow>
                (let zeroForOne = (toLowerCase t0 = toLowerCase tokenIn)
                 in float_amountOut E sqrtPriceX96 zeroForOne amountIn)))
      of
        Inl error \<Rightarrow> Inr Null
      | Inr amountOut \<Rightarrow> Inr (BigIntV amountOut))"

definition getSwapQuote ::
  "quote_env \<Rightarrow> string \<Rightarrow> string \<Rightarrow> string \<Rightarrow> int \<Rightarrow> int \<Rightarrow>
     console list \<times> (js_error + js_quote)" where
  "getSwapQuote E pool tokenIn tokenOut amountIn fee =
     (case
        (case QUOTER_V2_ADDRESS E of
           None \<Rightarrow> getQuoteFromPool E pool tokenIn tokenOut amountIn
         | Some QUOTER_V2 \<Rightarrow>
            if QUOTER_V2 \<noteq> [] then
              (case quoteExactInputSingle E QUOTER_V2 tokenIn tokenOut fee amountIn 0 of
                 Inr amountOut \<Rightarrow> Inr (BigIntV amountOut)
               | Inl e \<Rightarrow> getQuoteFromPool E pool tokenIn tokenOut amountIn)
            else getQuoteFromPool E pool tokenIn tokenOut amountIn)
      of
        Inr quote \<Rightarrow> ([], Inr quote)
      | Inl error \<Rightarrow> ([Warn_could_not_get_quote], Inr Null))"

text \<open>
  The two ways to no quote: the oracle is not configured (unset or empty) or its call
  throws; a pool read or the estimate throws.
\<close>

definition oracle_fails :: "quote_env \<Rightarrow> string \<Rightarrow> string \<Rightarrow> int \<Rightarrow> int \<Rightarrow> bool" where
  "oracle_fails E tIn tOut f amount =
     (case QUOTER_V2_ADDRESS E of
        None \<Rightarrow> True
      | Some a \<Rightarrow> a = [] \<or> isl (quoteExactInputSingle E a tIn tOut f amount 0))"

definition pool_read_fails :: "quote_env \<Rightarrow> string \<Rightarrow> string \<Rightarrow> int \<Rightarrow> bool" where
  "pool_read_fails E pool tIn amount =
     (case slot0_sqrtPriceX96 E pool of
        Inl e \<Rightarrow> True
      | Inr sqrtPrice \<Rightarrow>
         (case token0 E pool of
            Inl e \<Rightarrow> True
          | Inr t0 \<Rightarrow>
              isl (float_amountOut E sqrtPrice (toLowerCase t0 = toLowerCase tIn) amount)))"

text \<open>
  A provider that cannot reach its node: a quoter is configured, and every call fails in
  transport.
\<close>

definition offline_env :: quote_env where
  "offline_env =
     \<lparr>QUOTER_V2_ADDRESS = Some ''0x61fFE014bA17989E743c5F6cB21bF9697530B21e'',
      quoteExactInputSingle = (\<lambda>quoter tIn tOut f amount limit. Inl NetworkError),
      slot0_sqrtPriceX96 = (\<lambda>pool. Inl NetworkError),
      token0 = (\<lambda>pool. Inl NetworkError),
      float_amountOut = (\<lambda>sqrtPrice zeroForOne amount. Inl RangeError)\<rparr>"

subsection \<open>The swap script: route check and minimum output\<close>

text \<open>
  In \<open>main\<close> of the bundled-swap script, the call of \<open>enforcePrivateRPC\<close> is wrapped:
  \<^verbatim>\<open>
  try { const result = await enforcePrivateRPC(signer.provider, network, rpcUrl); ...
        isPrivate = result; }
  catch (error) { console.error(error.message); process.exit(1); }
  \<close>
  \<open>Inl 1\<close> is the exit; \<open>Inr isPrivate\<close> lets \<open>main\<close> go on to the swap.
\<close>

definition main_route_check ::
  "js_error + js_chainId \<Rightarrow> string \<Rightarrow> string \<Rightarrow> console list \<times> (nat + bool)" where
  "main_route_check getNetwork network rpcUrl =
     (case enforcePrivateRPC getNetwork network rpcUrl of
        (out, Inl error) \<Rightarrow> (out @ [Error_message error], Inl 1)
      | (out, Inr result) \<Rightarrow> (out, Inr result))"

text \<open>
  \<^verbatim>\<open>
  let minAmountOut = 0n;
  if (expectedOutput && expectedOutput > 0n) {
    minAmountOut = calculateMinOutput(expectedOutput, SLIPPAGE_BPS);
    console.log(`  Expected Output: ...`); console.log(`  Minimum Output (...): ...`);
  } else {
    console.log("  Could not get quote, using 0 as minimum (no slippage protection)");
  }
  \<close>
\<close>

definition main_minAmountOut ::
  "js_quote \<Rightarrow> js_number \<Rightarrow> console list \<times> (js_error + int)" where
  "main_minAmountOut expectedOutput SLIPPAGE_BPS =
     (case expectedOutput of
        Null \<Rightarrow> ([Log_no_quote_no_protection], Inr 0)
      | BigIntV q \<Rightarrow>
          if q \<noteq> 0 \<and> q > 0 then
            (case calculateMinOutput expectedOutput (Some SLIPPAGE_BPS) of
               Inl e \<Rightarrow> ([], Inl e)
             | Inr minAmountOut \<Rightarrow>
                 ([Log_expected_output q, Log_minimum_output minAmountOut], Inr minAmountOut))
          else ([Log_no_quote_no_protection], Inr 0))"

text \<open>
  The two steps as \<open>main\<close> runs them, inside its \<open>try\<close>:
  \<^verbatim>\<open>
  console.log("Getting swap quote...");
  const expectedOutput = await getSwapQuote(POOL_ADDRESS, WETH_ADDRESS, USDC_ADDRESS,
                                            amountIn, POOL_FEE, signer.provider);
  let minAmountOut = 0n; ...
  \<close>
\<close>

definition main_quote_and_minimum ::
  "quote_env \<Rightarrow> string \<Rightarrow> string \<Rightarrow> string \<Rightarrow> int \<Rightarrow> int \<Rightarrow> js_number \<Rightarrow>
     console list \<times> (js_error + int)" where
  "main_quote_and_minimum E POOL_ADDRESS WETH_ADDRESS USDC_ADDRESS amountIn POOL_FEE
       SLIPPAGE_BPS =
     (case getSwapQuote E POOL_ADDRESS WETH_ADDRESS USDC_ADDRESS amountIn POOL_FEE of
        (out, Inl error) \<Rightarrow> (Log_getting_swap_quote # out, Inl error)
      | (out, Inr expectedOutput) \<Rightarrow>
          (case main_minAmountOut expectedOutput SLIPPAGE_BPS of
             (out', r) \<Rightarrow> (Log_getting_swap_quote # out @ out', r)))"

section \<open>The contract \<open>contracts/SwapBundler.sol\<close>\<close>

subsection \<open>Types\<close>

type_synonym address = "160 word"
type_synonym uint256 = "256 word"
type_synonym uint160 = "160 word"
type_synonym uint24 = "24 word"
type_synonym bytes32 = "256 word"

text \<open>
  \<open>SimpleSwapRouter.ExactInputSingleParams\<close>, with the fields the swap script fills in.
\<close>

record ExactInputSingleParams =
  tokenIn :: address
  tokenOut :: address
  fee :: uint24
  recipient :: address
  deadline :: uint256
  amountIn :: uint256
  amountOutMinimum :: uint256
  sqrtPriceLimitX96 :: uint160

text \<open>The transaction as the contract sees it: \<open>msg\<close> and \<open>block\<close>.\<close>

record call_ctx =
  msg_sender :: address
  msg_value :: uint256
  block_timestamp :: uint256
  block_number :: uint256

text \<open>
  What the contract does to the outside, in the order it does it: the calls it makes
  (whether or not the callee reverts) and the events it emits.
  \<^item> \<open>RouterCall v pool weth params\<close>:
    \<open>router.exactInputSingleWithETH{value: v}(pool, weth, params)\<close>;
  \<^item> \<open>TokenTransfer token to amount\<close>: \<open>IERC20(token).safeTransfer(to, amount)\<close>;
  \<^item> \<open>TokenBalanceOf token\<close>: \<open>IERC20(token).balanceOf(address(this))\<close>;
  \<^item> \<open>EthTransfer to amount\<close>: \<open>payable(to).transfer(amount)\<close>;
  \<^item> \<open>SwapBundled user tokenIn tokenOut amountIn amountOut bundleId\<close>: the event.
\<close>

datatype action =
    RouterCall uint256 address address ExactInputSingleParams
  | TokenTransfer address address uint256
  | TokenBalanceOf address
  | EthTransfer address uint256
  | SwapBundled address address address uint256 uint256 bytes32

text \<open>
  Why a call of the contract reverts: a failed \<open>require\<close> with its message, an arithmetic
  panic of checked \<open>uint256\<close> arithmetic, value sent to a function that is not payable,
  or a revert of the external call made last.
\<close>

datatype revert = Require string | Panic | NotPayable | CallReverted

text \<open>
  The result of a call: \<open>Inl (reason, trace)\<close> is a revert, with the actions the contract
  had started until then (a revert undoes them all); \<open>Inr (value, world, trace)\<close> is a
  return, with the world after the call.
\<close>

type_synonym ('a, 'w) outcome = "(revert \<times> action list) + ('a \<times> 'w \<times> action list)"

text \<open>
  The router, the tokens and the recipients of ether are other contracts, whose code is
  not part of this one. They are parameters: each takes the world \<open>'w\<close> (all balances and
  storage outside this contract's code) and returns \<open>None\<close> when the call reverts.
  \<open>this_balance\<close> is \<open>address(this).balance\<close>, the value of the running call included,
  and \<open>keccak256_packed\<close> the hash of the four packed fields.
\<close>

record 'w chain =
  router_exactInputSingleWithETH ::
    "'w \<Rightarrow> uint256 \<Rightarrow> address \<Rightarrow> address \<Rightarrow> ExactInputSingleParams \<Rightarrow> (uint256 \<times> 'w) option"
  token_safeTransfer :: "'w \<Rightarrow> address \<Rightarrow> address \<Rightarrow> uint256 \<Rightarrow> 'w option"
  token_balanceOf_this :: "'w \<Rightarrow> address \<Rightarrow> uint256 option"
  eth_transfer :: "'w \<Rightarrow> address \<Rightarrow> uint256 \<Rightarrow> 'w option"
  this_balance :: "'w \<Rightarrow> uint256"
  keccak256_packed :: "uint256 \<Rightarrow> uint256 \<Rightarrow> address \<Rightarrow> uint256 \<Rightarrow> bytes32"

subsection \<open>\<open>bundleSwap\<close>\<close>

definition bundleSwap ::
  "'w chain \<Rightarrow> call_ctx \<Rightarrow> 'w \<Rightarrow> address \<Rightarrow> address \<Rightarrow> ExactInputSingleParams \<Rightarrow>
     (uint256, 'w) outcome" where
  "bundleSwap C m w pool weth params =
     (if \<not> msg_value m > 0 then Inl (Require ''Must send ETH'', [])
      else if \<not> tokenIn params = weth then Inl (Require ''tokenIn must be WETH'', [])
      else
        (let bundleId = keccak256_packed C (block_timestamp m) (block_number m)
                          (msg_sender m) (amountIn params);
             call = RouterCall (msg_value m) pool weth params
         in case router_exactInputSingleWithETH C w (msg_value m) pool weth params of
              None \<Rightarrow> Inl (CallReverted, [call])
            | Some (amountOut, w1) \<Rightarrow>
                Inr (amountOut, w1,
                     [call,
                      SwapBundled (msg_sender m) (tokenIn params) (tokenOut params)
                        (amountIn params) amountOut bundleId])))"

subsection \<open>\<open>bundleSwaps\<close>\<close>

text \<open>
  The first loop: \<open>totalValue += swaps[i].amountIn\<close>, in checked arithmetic
  (\<open>None\<close> is the panic on overflow).
\<close>

fun totalValue_loop :: "ExactInputSingleParams list \<Rightarrow> uint256 \<Rightarrow> uint256 option" where
  "totalValue_loop [] totalValue = Some totalValue"
| "totalValue_loop (s # rest) totalValue =
     (if unat totalValue + unat (amountIn s) < 2 ^ 256
      then totalValue_loop rest (totalValue + amountIn s)
      else None)"

text \<open>
  The second loop, from leg \<open>i\<close> on: \<open>legs\<close> are \<open>swaps[i..]\<close>, \<open>results\<close> is the array
  allocated before the loop, \<open>tr\<close> the actions so far. The index stays below the length
  of the array, so its increment cannot overflow and it is a natural number here.
  \<open>remainingValue -= swaps[i].amountIn\<close> is checked.
\<close>

fun swaps_loop ::
  "'w chain \<Rightarrow> address \<Rightarrow> address \<Rightarrow> ExactInputSingleParams list \<Rightarrow> nat \<Rightarrow>
     uint256 list \<Rightarrow> uint256 \<Rightarrow> 'w \<Rightarrow> action list \<Rightarrow> (uint256 list \<times> uint256, 'w) outcome" where
  "swaps_loop C pool weth [] i results remainingValue w tr =
     Inr ((results, remainingValue), w, tr)"
| "swaps_loop C pool weth (s # legs) i results remainingValue w tr =
     (if \<not> tokenIn s = weth then Inl (Require ''tokenIn must be WETH'', tr)
      else
        (let tr1 = tr @ [RouterCall (amountIn s) pool weth s]
         in case router_exactInputSingleWithETH C w (amountIn s) pool weth s of
              None \<Rightarrow> Inl (CallReverted, tr1)
            | Some (amountOut, w1) \<Rightarrow>
               (let results1 = results[i := amountOut];
                    tr2 = tr1 @ [TokenTransfer (tokenOut s) (recipient s) (results1 ! i)]
                in case (if tokenOut s \<noteq> 0
                         then (case token_safeTransfer C w1 (tokenOut s) (recipient s)
                                      (results1 ! i) of
                                 None \<Rightarrow> Inl (CallReverted, tr2)
                               | Some w2 \<Rightarrow> Inr (w2, tr2))
                         else Inr (w1, tr1)) of
                     Inl r \<Rightarrow> Inl r
                   | Inr (w2, tr3) \<Rightarrow>
                       if unat remainingValue < unat (amountIn s) then Inl (Panic, tr3)
                       else swaps_loop C pool weth legs (Suc i) results1
                              (remainingValue - amountIn s) w2 tr3)))"

definition bundleSwaps ::
  "'w chain \<Rightarrow> call_ctx \<Rightarrow> 'w \<Rightarrow> address \<Rightarrow> address \<Rightarrow> ExactInputSingleParams list \<Rightarrow>
     (uint256 list, 'w) outcome" where
  "bundleSwaps C m w pool weth swaps =
     (if \<not> length swaps > 0 then Inl (Require ''No swaps provided'', [])
      else case totalValue_loop swaps 0 of
        None \<Rightarrow> Inl (Panic, [])
      | Some totalValue \<Rightarrow>
          if \<not> msg_value m \<ge> totalValue then Inl (Require ''Insufficient ETH'', [])
          else
            (case swaps_loop C pool weth swaps 0 (replicate (length swaps) 0)
                    (msg_value m) w [] of
               Inl r \<Rightarrow> Inl r
             | Inr ((results, remainingValue), w1, tr) \<Rightarrow>
                 if remainingValue > 0 then
                   (case eth_transfer C w1 (msg_sender m) remainingValue of
                      None \<Rightarrow>
                        Inl (CallReverted, tr @ [EthTransfer (msg_sender m) remainingValue])
                    | Some w2 \<Rightarrow>
                        Inr (results, w2, tr @ [EthTransfer (msg_sender m) remainingValue]))
                 else Inr (results, w1, tr)))"

subsection \<open>\<open>bundleSwapWithObfuscation\<close>\<close>

text \<open>
  \<^verbatim>\<open>for (uint256 i = 0; i < dummyOps && i < 10; i++) {
      uint256 dummy = block.timestamp + i; dummy = dummy * 2; }\<close>
  from \<open>i\<close> on. The result is the number of rounds run, or \<open>None\<close> for the panic of the
  checked addition or multiplication.
\<close>

function dummy_loop :: "uint256 \<Rightarrow> uint256 \<Rightarrow> uint256 \<Rightarrow> nat option" where
  "dummy_loop timestamp dummyOps i =
     (if i < dummyOps \<and> i < 10 then
        (if \<not> unat timestamp + unat i < 2 ^ 256 then None
         else if \<not> unat (timestamp + i) * 2 < 2 ^ 256 then None
         else map_option Suc (dummy_loop timestamp dummyOps (i + 1)))
      else Some 0)"
  by pat_completeness auto
termination
proof (relation "measure (\<lambda>(timestamp, dummyOps, i). 10 - unat i)")
  show "wf (measure (\<lambda>(timestamp, dummyOps, i). 10 - unat i))"
    by simp
next
  fix timestamp dummyOps i :: uint256
  assume "i < dummyOps \<and> i < 10"
  then have "unat i < 10"
    by (simp add: word_less_nat_alt)
  then have "unat (i + 1) = unat i + 1"
    by (simp add: unat_word_ariths)
  with \<open>unat i < 10\<close>
  show "((timestamp, dummyOps, i + 1), (timestamp, dummyOps, i))
          \<in> measure (\<lambda>(timestamp, dummyOps, i). 10 - unat i)"
    by simp
qed

declare dummy_loop.simps [simp del]

definition bundleSwapWithObfuscation ::
  "'w chain \<Rightarrow> call_ctx \<Rightarrow> 'w \<Rightarrow> address \<Rightarrow> address \<Rightarrow> ExactInputSingleParams \<Rightarrow> uint256 \<Rightarrow>
     (uint256, 'w) outcome" where
  "bundleSwapWithObfuscation C m w pool weth params dummyOps =
     (case dummy_loop (block_timestamp m) dummyOps 0 of
        None \<Rightarrow> Inl (Panic, [])
      | Some rounds \<Rightarrow>
         if \<not> msg_value m > 0 then Inl (Require ''Must send ETH'', [])
         else if \<not> tokenIn params = weth then Inl (Require ''tokenIn must be WETH'', [])
         else
           (let bundleId = keccak256_packed C (block_timestamp m) (block_number m)
                             (msg_sender m) (amountIn params);
                call = RouterCall (msg_value m) pool weth params
            in case router_exactInputSingleWithETH C w (msg_value m) pool weth params of
                 None \<Rightarrow> Inl (CallReverted, [call])
               | Some (amountOut, w1) \<Rightarrow>
                  (let forward = TokenTransfer (tokenOut params) (recipient params) amountOut;
                       event = SwapBundled (msg_sender m) (tokenIn params) (tokenOut params)
                                 (amountIn params) amountOut bundleId
                   in if tokenOut params \<noteq> 0 then
                        (case token_safeTransfer C w1 (tokenOut params) (recipient params)
                                amountOut of
                           None \<Rightarrow> Inl (CallReverted, [call, forward])
                         | Some w2 \<Rightarrow> Inr (amountOut, w2, [call, forward, event]))
                      else Inr (amountOut, w1, [call, event]))))"

subsection \<open>\<open>withdraw\<close>\<close>


subsection \<open>Reading outcomes and traces\<close>

definition returned :: "('a, 'w) outcome \<Rightarrow> 'a option" where
  "returned r = (case r of Inl f \<Rightarrow> None | Inr (v, w, tr) \<Rightarrow> Some v)"

definition reverted :: "('a, 'w) outcome \<Rightarrow> revert option" where
  "reverted r = (case r of Inl (reason, tr) \<Rightarrow> Some reason | Inr x \<Rightarrow> None)"

definition world_of :: "('a, 'w) outcome \<Rightarrow> 'w option" where
  "world_of r = (case r of Inl f \<Rightarrow> None | Inr (v, w, tr) \<Rightarrow> Some w)"

definition trace_of :: "('a, 'w) outcome \<Rightarrow> action list" where
  "trace_of r = (case r of Inl (reason, tr) \<Rightarrow> tr | Inr (v, w, tr) \<Rightarrow> tr)"

fun is_EthTransfer :: "action \<Rightarrow> bool" where
  "is_EthTransfer (EthTransfer to amount) = True"
| "is_EthTransfer a = False"


text \<open>The sum \<open>a1 + ... + an\<close> of the legs' input amounts, as a number.\<close>

definition legs_total :: "ExactInputSingleParams list \<Rightarrow> nat" where
  "legs_total swaps = sum_list (map (\<lambda>s. unat (amountIn s)) swaps)"

text \<open>What one leg of a batch does, given the amount the router returned for it.\<close>

definition leg_actions ::
  "address \<Rightarrow> address \<Rightarrow> ExactInputSingleParams \<Rightarrow> uint256 \<Rightarrow> action list" where
  "leg_actions pool weth s amountOut =
     RouterCall (amountIn s) pool weth s #
       (if tokenOut s \<noteq> 0 then [TokenTransfer (tokenOut s) (recipient s) amountOut] else [])"


subsection \<open>A simulated chain\<close>

text \<open>
  A world to run the contract in: ether and token balances, and the accounts that refuse
  plain ether (contracts without a payable \<open>receive\<close>). The bundler and the router have
  fixed addresses. The simulated router takes the value from the bundler, pays two output
  tokens per unit of value straight to the recipient, and reverts below the minimum; the
  simulated tokens move balances and revert on an overdraft.
\<close>

record ledger =
  ether :: "address \<Rightarrow> nat"
  tokens :: "address \<Rightarrow> address \<Rightarrow> nat"
  refuses_ether :: "address \<Rightarrow> bool"

definition bundler :: address where
  "bundler = 176"

definition router :: address where
  "router = 160"

definition sim_router ::
  "ledger \<Rightarrow> uint256 \<Rightarrow> address \<Rightarrow> address \<Rightarrow> ExactInputSingleParams \<Rightarrow> (uint256 \<times> ledger) option" where
  "sim_router w v pool weth params =
     (if ether w bundler < unat v \<or> 2 ^ 256 \<le> 2 * unat v
         \<or> 2 * unat v < unat (amountOutMinimum params)
      then None
      else Some (2 * v,
        w\<lparr>ether := (ether w)(bundler := ether w bundler - unat v,
                              router := ether w router + unat v),
          tokens := (tokens w)(tokenOut params :=
                      (tokens w (tokenOut params))(recipient params :=
                         tokens w (tokenOut params) (recipient params) + 2 * unat v))\<rparr>))"

definition sim_safeTransfer :: "ledger \<Rightarrow> address \<Rightarrow> address \<Rightarrow> uint256 \<Rightarrow> ledger option" where
  "sim_safeTransfer w token to amount =
     (if tokens w token bundler < unat amount then None
      else Some (w\<lparr>tokens := (tokens w)(token :=
                     (let b = (tokens w token)(bundler := tokens w token bundler - unat amount)
                      in b(to := b to + unat amount)))\<rparr>))"

definition sim_eth_transfer :: "ledger \<Rightarrow> address \<Rightarrow> uint256 \<Rightarrow> ledger option" where
  "sim_eth_transfer w to amount =
     (if refuses_ether w to \<or> ether w bundler < unat amount then None
      else Some (w\<lparr>ether :=
                     (let b = (ether w)(bundler := ether w bundler - unat amount)
                      in b(to := b to + unat amount))\<rparr>))"

definition sim_chain :: "ledger chain" where
  "sim_chain =
     \<lparr>router_exactInputSingleWithETH = sim_router,
      token_safeTransfer = sim_safeTransfer,
      token_balanceOf_this = (\<lambda>w token. Some (of_nat (tokens w token bundler))),
      eth_transfer = sim_eth_transfer,
      this_balance = (\<lambda>w. of_nat (ether w bundler)),
      keccak256_packed = (\<lambda>timestamp number sender amount. timestamp + number + amount)\<rparr>"

text \<open>
  Addresses and worlds of the runs below: \<open>WETH\<close>, \<open>USDC\<close> and \<open>POOL\<close>; a user; a contract
  that refuses ether. In \<open>fresh_world v\<close> the bundler holds the value \<open>v\<close> of the running
  call and no tokens; in \<open>stocked_world v\<close> it holds 5000 \<open>USDC\<close> besides.
\<close>

definition WETH :: address where "WETH = 1"
definition USDC :: address where "USDC = 2"
definition POOL :: address where "POOL = 3"
definition user :: address where "user = 4"
definition vault :: address where "vault = 5"

definition fresh_world :: "nat \<Rightarrow> ledger" where
  "fresh_world v =
     \<lparr>ether = (\<lambda>a. if a = bundler then v else 0),
      tokens = (\<lambda>token a. 0),
      refuses_ether = (\<lambda>a. a = vault)\<rparr>"

definition stocked_world :: "nat \<Rightarrow> ledger" where
  "stocked_world v =
     \<lparr>ether = (\<lambda>a. if a = bundler then v else 0),
      tokens = (\<lambda>token a. if token = USDC \<and> a = bundler then 5000 else 0),
      refuses_ether = (\<lambda>a. a = vault)\<rparr>"

definition leg :: "address \<Rightarrow> nat \<Rightarrow> ExactInputSingleParams" where
  "leg out a =
     \<lparr>tokenIn = WETH, tokenOut = out, fee = 500, recipient = user, deadline = 1700000300,
      amountIn = of_nat a, amountOutMinimum = 0, sqrtPriceLimitX96 = 0\<rparr>"

definition tx :: "nat \<Rightarrow> call_ctx" where
  "tx v = \<lparr>msg_sender = user, msg_value = of_nat v, block_timestamp = 1700000000,
           block_number = 5000000\<rparr>"

section \<open>Properties of the helper script\<close>

lemma bigint_quot_nonneg: "0 \<le> a \<Longrightarrow> 0 < b \<Longrightarrow> bigint_quot a b = a div b"
  by (cases "a = 0") (simp_all add: bigint_quot_def)

text \<open>
  Claim C2. For every quote \<open>q > 0\<close> and every tolerance \<open>t\<close> of 0 to 10000 basis
  points, \<open>calculateMinOutput\<close> returns exactly the floor of \<open>q * (10000 - t) / 10000\<close>.
\<close>

theorem calculateMinOutput_floor:
  assumes "0 < q" and "0 \<le> t" and "t \<le> 10000"
  shows "calculateMinOutput (BigIntV q) (Some (NumInt t)) = Inr ((q * (10000 - t)) div 10000)"
proof -
  have "0 \<le> q * (10000 - t)"
    using assms by simp
  then have "bigint_quot (q * (10000 - t)) 10000 = (q * (10000 - t)) div 10000"
    by (rule bigint_quot_nonneg) simp
  then show ?thesis
    using assms by (simp add: calculateMinOutput_def BigInt_of_def)
qed

theorem calculateMinOutput_floor_witness:
  "(0::int) < 4490000 \<and> (0::int) \<le> 200 \<and> (200::int) \<le> 10000 \<and>
   calculateMinOutput (BigIntV 4490000) (Some (NumInt 200)) = Inr 4400200"
  using calculateMinOutput_floor [of 4490000 200] by simp

lemma bigint_quot_neg: "a < 0 \<Longrightarrow> 0 < b \<Longrightarrow> bigint_quot a b = - ((- a) div b)"
  by (simp add: bigint_quot_def)

text \<open>
  Claim C9, as the code has it. \<open>calculateMinOutput\<close> checks no range. For an integer
  tolerance below 0 or above 10000 it throws nothing: it returns 0 for an absent or zero
  quote, and \<open>q * (10000 - t) / 10000\<close> rounded towards zero for any other quote \<open>q\<close>. For
  \<open>q > 0\<close> that value is at most 0 when \<open>t > 10000\<close> and at least \<open>q\<close> when \<open>t < 0\<close>.
\<close>

theorem calculateMinOutput_no_range_check:
  assumes "t < 0 \<or> 10000 < t"
  shows "calculateMinOutput Null (Some (NumInt t)) = Inr 0
       \<and> calculateMinOutput (BigIntV 0) (Some (NumInt t)) = Inr 0
       \<and> (q \<noteq> 0 \<longrightarrow>
            calculateMinOutput (BigIntV q) (Some (NumInt t)) =
              Inr (bigint_quot (q * (10000 - t)) 10000))
       \<and> (0 < q \<and> 10000 < t \<longrightarrow> bigint_quot (q * (10000 - t)) 10000 \<le> 0)
       \<and> (0 < q \<and> t < 0 \<longrightarrow> q \<le> bigint_quot (q * (10000 - t)) 10000)"
proof (intro conjI impI)
  show "calculateMinOutput Null (Some (NumInt t)) = Inr 0"
    by (simp add: calculateMinOutput_def)
  show "calculateMinOutput (BigIntV 0) (Some (NumInt t)) = Inr 0"
    by (simp add: calculateMinOutput_def)
next
  assume "q \<noteq> 0"
  then show "calculateMinOutput (BigIntV q) (Some (NumInt t)) =
              Inr (bigint_quot (q * (10000 - t)) 10000)"
    by (simp add: calculateMinOutput_def BigInt_of_def)
next
  assume h: "0 < q \<and> 10000 < t"
  then have neg: "q * (10000 - t) < 0"
    by (simp add: mult_pos_neg)
  then have "0 \<le> (- (q * (10000 - t))) div 10000"
    by (simp add: pos_imp_zdiv_nonneg_iff)
  with bigint_quot_neg [OF neg, of 10000]
  show "bigint_quot (q * (10000 - t)) 10000 \<le> 0"
    by simp
next
  assume h: "0 < q \<and> t < 0"
  then have "q * 10000 \<le> q * (10000 - t)"
    by (simp add: mult_left_mono)
  then have "(q * 10000) div 10000 \<le> (q * (10000 - t)) div 10000"
    by (rule zdiv_mono1) simp
  moreover from h have "0 \<le> q * (10000 - t)" by simp
  then have "bigint_quot (q * (10000 - t)) 10000 = (q * (10000 - t)) div 10000"
    by (rule bigint_quot_nonneg) simp
  ultimately show "q \<le> bigint_quot (q * (10000 - t)) 10000"
    by simp
qed

theorem calculateMinOutput_no_range_check_witness:
  "((-500 :: int) < 0 \<or> (10000 :: int) < -500) \<and> (1000 :: int) \<noteq> 0 \<and> (0 :: int) < 1000
   \<and> calculateMinOutput Null (Some (NumInt (-500))) = Inr 0
   \<and> calculateMinOutput (BigIntV 1000) (Some (NumInt (-500))) = Inr 1050
   \<and> (1000 :: int) \<le> 1050
   \<and> ((20000 :: int) < 0 \<or> (10000 :: int) < 20000)
   \<and> calculateMinOutput (BigIntV 1000) (Some (NumInt 20000)) = Inr (- 1000)
   \<and> (- 1000 :: int) \<le> 0
   \<and> calculateMinOutput (BigIntV 1) (Some (NumInt (-1))) = Inr 1"
  using calculateMinOutput_no_range_check [of "-500" 1000]
    calculateMinOutput_no_range_check [of 20000 1000]
    calculateMinOutput_no_range_check [of "-1" 1]
  by (simp add: bigint_quot_def)

text \<open>
  The claim as stated fails: a tolerance of 20000 basis points on a quote of 100 is not
  rejected, the result is \<open>-100\<close>.
\<close>

theorem tolerance_out_of_range_is_computed:
  "\<not> (0 \<le> (20000 :: int) \<and> (20000 :: int) \<le> 10000)
   \<and> calculateMinOutput (BigIntV 100) (Some (NumInt 20000)) = Inr (- 100)"
  by (simp add: calculateMinOutput_def BigInt_of_def bigint_quot_def)

subsection \<open>Quote estimator\<close>

lemma getQuoteFromPool_never_throws:
  "\<exists>q. getQuoteFromPool E pool tIn tOut amount = Inr q"
  by (auto simp: getQuoteFromPool_def Let_def split: sum.splits)

lemma getQuoteFromPool_fails:
  "pool_read_fails E pool tIn amount \<Longrightarrow> getQuoteFromPool E pool tIn tOut amount = Inr Null"
  by (auto simp: getQuoteFromPool_def pool_read_fails_def Let_def split: sum.splits)

text \<open>
  Claim C6, as the code has it. \<open>getSwapQuote\<close> never throws and never prints: whatever
  the oracle and the pool reads do, it returns a quote or \<open>null\<close>; when the oracle is not
  configured or throws, and a pool read or the estimate throws (a transport failure or
  any other error), the quote is \<open>null\<close>. Its own \<open>catch\<close> with the warning is never
  reached, since \<open>getQuoteFromPool\<close> catches everything itself.
\<close>

theorem getSwapQuote_never_throws:
  "(\<exists>q. getSwapQuote E pool tIn tOut amount f = ([], Inr q))
   \<and> (oracle_fails E tIn tOut f amount \<and> pool_read_fails E pool tIn amount \<longrightarrow>
        getSwapQuote E pool tIn tOut amount f = ([], Inr Null))"
proof (intro conjI impI)
  from getQuoteFromPool_never_throws [of E pool tIn tOut amount]
  show "\<exists>q. getSwapQuote E pool tIn tOut amount f = ([], Inr q)"
    by (auto simp: getSwapQuote_def split: option.splits sum.splits)
next
  assume "oracle_fails E tIn tOut f amount \<and> pool_read_fails E pool tIn amount"
  then have o: "oracle_fails E tIn tOut f amount"
    and "getQuoteFromPool E pool tIn tOut amount = Inr Null"
    by (simp_all add: getQuoteFromPool_fails)
  then show "getSwapQuote E pool tIn tOut amount f = ([], Inr Null)"
    by (auto simp: getSwapQuote_def oracle_fails_def split: option.splits sum.splits)
qed

theorem getSwapQuote_never_throws_witness:
  "oracle_fails offline_env ''0xWETH'' ''0xUSDC'' 500 1000
   \<and> pool_read_fails offline_env ''0xPOOL'' ''0xWETH'' 1000
   \<and> getSwapQuote offline_env ''0xPOOL'' ''0xWETH'' ''0xUSDC'' 1000 500 = ([], Inr Null)"
proof -
  have o: "oracle_fails offline_env ''0xWETH'' ''0xUSDC'' 500 1000"
    by (simp add: oracle_fails_def offline_env_def)
  have p: "pool_read_fails offline_env ''0xPOOL'' ''0xWETH'' 1000"
    by (simp add: pool_read_fails_def offline_env_def)
  from getSwapQuote_never_throws [of offline_env "''0xPOOL''" "''0xWETH''" "''0xUSDC''" 1000 500]
    o p
  show ?thesis by simp
qed

text \<open>
  The claim as stated fails: with a node that cannot be reached, the transport failure of
  both paths is not passed on to the caller; the result is the absent quote.
\<close>

theorem transport_failure_becomes_absent_quote:
  "slot0_sqrtPriceX96 offline_env ''0xPOOL'' = Inl NetworkError
   \<and> quoteExactInputSingle offline_env ''0x61fFE014bA17989E743c5F6cB21bF9697530B21e''
        ''0xWETH'' ''0xUSDC'' 500 2000000000000000 0 = Inl NetworkError
   \<and> getSwapQuote offline_env ''0xPOOL'' ''0xWETH'' ''0xUSDC'' 2000000000000000 500
        = ([], Inr Null)
   \<and> snd (getSwapQuote offline_env ''0xPOOL'' ''0xWETH'' ''0xUSDC'' 2000000000000000 500)
        \<noteq> Inl NetworkError"
  by (simp add: getSwapQuote_def getQuoteFromPool_def offline_env_def)

subsection \<open>The absent quote in the swap script\<close>

text \<open>
  Claim C5. With an absent quote, whatever the tolerance (left out, an integer or not),
  \<open>calculateMinOutput\<close> returns 0 and throws nothing, and the swap script sets the minimum
  output to 0 and prints "Could not get quote, using 0 as minimum (no slippage
  protection)" for the operator. So whenever no quote can be obtained (the oracle is not
  configured or throws, and the pool read throws), the script's quote step ends with
  minimum 0, that line on the console, and no error.
\<close>

theorem absent_quote_zero_and_warning:
  "calculateMinOutput Null t = Inr 0
   \<and> main_minAmountOut Null bps = ([Log_no_quote_no_protection], Inr 0)
   \<and> (oracle_fails E tIn tOut f amount \<and> pool_read_fails E pool tIn amount \<longrightarrow>
        main_quote_and_minimum E pool tIn tOut amount f bps =
          ([Log_getting_swap_quote, Log_no_quote_no_protection], Inr 0))"
proof (intro conjI impI)
  show "calculateMinOutput Null t = Inr 0"
    by (simp add: calculateMinOutput_def)
  show m: "main_minAmountOut Null bps = ([Log_no_quote_no_protection], Inr 0)"
    by (simp add: main_minAmountOut_def)
  assume "oracle_fails E tIn tOut f amount \<and> pool_read_fails E pool tIn amount"
  then have o: "oracle_fails E tIn tOut f amount"
    and g: "getQuoteFromPool E pool tIn tOut amount = Inr Null"
    by (simp_all add: getQuoteFromPool_fails)
  then have "getSwapQuote E pool tIn tOut amount f = ([], Inr Null)"
    by (auto simp: getSwapQuote_def oracle_fails_def split: option.splits sum.splits)
  with m show "main_quote_and_minimum E pool tIn tOut amount f bps =
          ([Log_getting_swap_quote, Log_no_quote_no_protection], Inr 0)"
    by (simp add: main_quote_and_minimum_def)
qed

theorem absent_quote_zero_and_warning_witness:
  "oracle_fails offline_env ''0xWETH'' ''0xUSDC'' 500 2000
   \<and> pool_read_fails offline_env ''0xPOOL'' ''0xWETH'' 2000
   \<and> calculateMinOutput Null (Some (NumInt 200)) = Inr 0
   \<and> main_quote_and_minimum offline_env ''0xPOOL'' ''0xWETH'' ''0xUSDC'' 2000 500 (NumInt 200) =
        ([Log_getting_swap_quote, Log_no_quote_no_protection], Inr 0)"
proof -
  have o: "oracle_fails offline_env ''0xWETH'' ''0xUSDC'' 500 2000"
    by (simp add: oracle_fails_def offline_env_def)
  have p: "pool_read_fails offline_env ''0xPOOL'' ''0xWETH'' 2000"
    by (simp add: pool_read_fails_def offline_env_def)
  from absent_quote_zero_and_warning [of "Some (NumInt 200)" "NumInt 200" offline_env
      "''0xWETH''" "''0xUSDC''" 500 2000 "''0xPOOL''"] o p
  show ?thesis by simp
qed

subsection \<open>Route selector\<close>

lemma getPrivateRPCUrl_not_sepolia:
  "truthy (getPrivateRPCUrl network) \<Longrightarrow> toLowerCase network \<noteq> ''sepolia''"
  by (auto simp add: getPrivateRPCUrl_def obj_get_def truthy_def flashtrades_def
        Object_prototype_keys_def Let_def)

text \<open>
  Claim C3. On a production network (chain id 1), with an endpoint that is not recognised
  as private and a private endpoint known for the network, \<open>enforcePrivateRPC\<close> prints the
  error block and throws "Private RPC required for production network"; the swap script
  then exits with code 1 before it prepares any swap.
\<close>

theorem enforcePrivateRPC_fails_fast:
  assumes "isProductionNetwork chainId" and "\<not> isPrivateRPC rpcUrl"
    and "truthy (getPrivateRPCUrl network)"
  shows "enforcePrivateRPC (Inr chainId) network rpcUrl =
           ([Error_private_rpc_required rpcUrl (getPrivateRPCUrl network)],
            Inl (Error ''Private RPC required for production network''))
       \<and> snd (main_route_check (Inr chainId) network rpcUrl) = Inl 1"
  using assms getPrivateRPCUrl_not_sepolia [OF assms(3)]
  by (simp add: enforcePrivateRPC_def main_route_check_def Let_def)

lemma llama_not_private: "\<not> isPrivateRPC ''https://eth.llamarpc.com''"
  by (simp add: isPrivateRPC_def toLowerCase_def lower_char_def)

lemma mainnet_private_url: "getPrivateRPCUrl ''mainnet'' = PStr ''https://rpc.flashbots.net''"
  by (simp add: getPrivateRPCUrl_def toLowerCase_def lower_char_def obj_get_def truthy_def
        flashtrades_def)

lemma homestead_no_private_url: "getPrivateRPCUrl ''homestead'' = PNull"
  by (simp add: getPrivateRPCUrl_def toLowerCase_def lower_char_def obj_get_def truthy_def
        flashtrades_def Object_prototype_keys_def)

theorem enforcePrivateRPC_fails_fast_witness:
  "isProductionNetwork (ChainBigInt 1) \<and> \<not> isPrivateRPC ''https://eth.llamarpc.com''
   \<and> truthy (getPrivateRPCUrl ''mainnet'')
   \<and> enforcePrivateRPC (Inr (ChainBigInt 1)) ''mainnet'' ''https://eth.llamarpc.com'' =
       ([Error_private_rpc_required ''https://eth.llamarpc.com''
           (PStr ''https://rpc.flashbots.net'')],
        Inl (Error ''Private RPC required for production network''))
   \<and> snd (main_route_check (Inr (ChainBigInt 1)) ''mainnet'' ''https://eth.llamarpc.com'') = Inl 1"
proof -
  have p: "isProductionNetwork (ChainBigInt 1)" by (simp add: isProductionNetwork_def)
  have t: "truthy (getPrivateRPCUrl ''mainnet'')"
    by (simp add: mainnet_private_url truthy_def)
  from enforcePrivateRPC_fails_fast [OF p llama_not_private t] p t llama_not_private
  show ?thesis by (simp add: mainnet_private_url)
qed

text \<open>
  Claim C4, as the code has it. On a production network, with an endpoint that is not
  recognised as private and no private endpoint known for the network,
  \<open>enforcePrivateRPC\<close> does not refuse: it prints the warning "Private RPC is recommended
  but not configured" (the Sepolia note, if the network is named sepolia) and returns
  \<open>false\<close>, and the swap script goes on with the standard endpoint.
\<close>

theorem enforcePrivateRPC_proceeds_without_alternative:
  assumes "isProductionNetwork chainId" and "\<not> isPrivateRPC rpcUrl"
    and "\<not> truthy (getPrivateRPCUrl network)"
  shows "enforcePrivateRPC (Inr chainId) network rpcUrl =
           (if toLowerCase network = ''sepolia'' then [Log_sepolia_bundler_protection]
            else [Warn_private_rpc_not_configured], Inr False)
       \<and> main_route_check (Inr chainId) network rpcUrl =
           (if toLowerCase network = ''sepolia'' then [Log_sepolia_bundler_protection]
            else [Warn_private_rpc_not_configured], Inr False)"
  using assms by (simp add: enforcePrivateRPC_def main_route_check_def Let_def)

theorem enforcePrivateRPC_proceeds_without_alternative_witness:
  "isProductionNetwork (ChainNumber 1) \<and> \<not> isPrivateRPC ''https://eth.llamarpc.com''
   \<and> \<not> truthy (getPrivateRPCUrl ''homestead'')
   \<and> main_route_check (Inr (ChainNumber 1)) ''homestead'' ''https://eth.llamarpc.com'' =
        ([Warn_private_rpc_not_configured], Inr False)"
proof -
  have p: "isProductionNetwork (ChainNumber 1)" by (simp add: isProductionNetwork_def)
  have t: "\<not> truthy (getPrivateRPCUrl ''homestead'')"
    by (simp add: homestead_no_private_url truthy_def)
  have l: "toLowerCase ''homestead'' \<noteq> ''sepolia''"
    by (simp add: toLowerCase_def lower_char_def)
  from enforcePrivateRPC_proceeds_without_alternative [OF p llama_not_private t] p t l
    llama_not_private
  show ?thesis by simp
qed

text \<open>
  The claim as stated fails: chain id 1 under the network name "homestead", with a public
  endpoint, is not refused.
\<close>

theorem production_without_alternative_is_not_refused:
  "isProductionNetwork (ChainBigInt 1) \<and> \<not> isPrivateRPC ''https://eth.llamarpc.com''
   \<and> getPrivateRPCUrl ''homestead'' = PNull
   \<and> enforcePrivateRPC (Inr (ChainBigInt 1)) ''homestead'' ''https://eth.llamarpc.com'' =
        ([Warn_private_rpc_not_configured], Inr False)
   \<and> snd (main_route_check (Inr (ChainBigInt 1)) ''homestead'' ''https://eth.llamarpc.com'')
        \<noteq> Inl 1"
proof -
  have l: "toLowerCase ''homestead'' \<noteq> ''sepolia''"
    by (simp add: toLowerCase_def lower_char_def)
  then show ?thesis
    by (simp add: enforcePrivateRPC_def main_route_check_def isProductionNetwork_def
          llama_not_private homestead_no_private_url truthy_def)
qed

section \<open>Properties of the contract\<close>

subsection \<open>The batch: value accounting\<close>

lemmas sim_defs = sim_chain_def sim_router_def sim_safeTransfer_def sim_eth_transfer_def
  tx_def stocked_world_def fresh_world_def leg_def POOL_def WETH_def USDC_def user_def
  bundler_def router_def vault_def

lemma unat_add_checked:
  fixes a b :: uint256
  shows "unat a + unat b < 2 ^ 256 \<Longrightarrow> unat (a + b) = unat a + unat b"
  by (simp add: unat_word_ariths)

lemma legs_total_Cons: "legs_total (s # legs) = unat (amountIn s) + legs_total legs"
  by (simp add: legs_total_def)

lemma legs_total_Nil: "legs_total [] = 0"
  by (simp add: legs_total_def)

lemma totalValue_loop_Some:
  "unat t + legs_total swaps < 2 ^ 256 \<Longrightarrow>
     \<exists>T. totalValue_loop swaps t = Some T \<and> unat T = unat t + legs_total swaps"
proof (induction swaps arbitrary: t)
  case Nil
  then show ?case by (simp add: legs_total_Nil)
next
  case (Cons s swaps)
  from Cons.prems have small: "unat t + unat (amountIn s) < 2 ^ 256"
    by (simp add: legs_total_Cons)
  then have step: "unat (t + amountIn s) = unat t + unat (amountIn s)"
    by (rule unat_add_checked)
  with Cons.prems have "unat (t + amountIn s) + legs_total swaps < 2 ^ 256"
    by (simp add: legs_total_Cons)
  from Cons.IH [OF this] obtain T where
    "totalValue_loop swaps (t + amountIn s) = Some T"
    "unat T = unat (t + amountIn s) + legs_total swaps"
    by blast
  with small step show ?case
    by (simp add: legs_total_Cons)
qed

lemma totalValue_loop_None:
  "\<not> unat t + legs_total swaps < 2 ^ 256 \<Longrightarrow> totalValue_loop swaps t = None"
proof (induction swaps arbitrary: t)
  case Nil
  have "unat t < 2 ^ 256"
    using unsigned_less [of t] by simp
  with Nil show ?case by (simp add: legs_total_Nil)
next
  case (Cons s swaps)
  show ?case
  proof (cases "unat t + unat (amountIn s) < 2 ^ 256")
    case True
    then have "unat (t + amountIn s) = unat t + unat (amountIn s)"
      by (rule unat_add_checked)
    with Cons.prems have "\<not> unat (t + amountIn s) + legs_total swaps < 2 ^ 256"
      by (simp add: legs_total_Cons)
    from Cons.IH [OF this] True show ?thesis by simp
  next
    case False
    then show ?thesis by simp
  qed
qed

lemma swaps_loop_Inr:
  assumes "swaps_loop C pool weth legs i results remainingValue w tr = Inr ((results', remaining'), w', tr')"
    and "i + length legs = length results"
  shows "unat remainingValue = unat remaining' + legs_total legs
       \<and> length results' = length results
       \<and> take i results' = take i results
       \<and> tr' = tr @ concat (map2 (leg_actions pool weth) legs (drop i results'))"
  using assms
proof (induction legs arbitrary: i results remainingValue w tr)
  case Nil
  then show ?case by (simp add: legs_total_Nil)
next
  case (Cons s legs)
  let ?call = "RouterCall (amountIn s) pool weth s"
  from Cons.prems(1) have weth: "tokenIn s = weth"
    by (simp split: if_splits)
  from Cons.prems(1) weth obtain amountOut w1 where
    r: "router_exactInputSingleWithETH C w (amountIn s) pool weth s = Some (amountOut, w1)"
    by (auto simp: Let_def split: option.splits)
  let ?results1 = "results[i := amountOut]"
  from Cons.prems(2) have i: "i < length results" by simp
  then have out: "?results1 ! i = amountOut" by simp
  from Cons.prems(1) weth r out obtain w2 where
    enough: "\<not> unat remainingValue < unat (amountIn s)" and
    rest: "swaps_loop C pool weth legs (Suc i) ?results1 (remainingValue - amountIn s) w2
             (tr @ leg_actions pool weth s amountOut) = Inr ((results', remaining'), w', tr')"
    by (auto simp: Let_def leg_actions_def split: option.splits if_splits)
  from Cons.prems(2) have "Suc i + length legs = length ?results1" by simp
  from Cons.IH [OF rest this] have
    ih1: "unat (remainingValue - amountIn s) = unat remaining' + legs_total legs" and
    ih2: "length results' = length ?results1" and
    ih3: "take (Suc i) results' = take (Suc i) ?results1" and
    ih4: "tr' = (tr @ leg_actions pool weth s amountOut) @
            concat (map2 (leg_actions pool weth) legs (drop (Suc i) results'))"
    by simp_all
  from enough have "unat (remainingValue - amountIn s) = unat remainingValue - unat (amountIn s)"
    by (simp add: unat_sub word_le_nat_alt)
  with ih1 enough have g1: "unat remainingValue = unat remaining' + legs_total (s # legs)"
    by (simp add: legs_total_Cons)
  from ih2 have g2: "length results' = length results" by simp
  from ih2 i have i': "i < length results'" by simp
  have "results' ! i = take (Suc i) results' ! i" by simp
  also have "\<dots> = take (Suc i) ?results1 ! i" by (simp only: ih3)
  also have "\<dots> = amountOut" using out by simp
  finally have at_i: "results' ! i = amountOut" .
  have "take i results' = take i (take (Suc i) results')" by (simp add: min_def)
  also have "\<dots> = take i (take (Suc i) ?results1)" by (simp only: ih3)
  also have "\<dots> = take i results" by (simp add: min_def)
  finally have g3: "take i results' = take i results" .
  have "drop i results' = amountOut # drop (Suc i) results'"
    using Cons_nth_drop_Suc [OF i'] at_i by simp
  with ih4 have g4: "tr' = tr @ concat (map2 (leg_actions pool weth) (s # legs) (drop i results'))"
    by simp
  from g1 g2 g3 g4 show ?case by blast
qed

lemma filter_eth_leg_actions: "filter is_EthTransfer (leg_actions pool weth s out) = []"
  by (simp add: leg_actions_def)

lemma filter_eth_legs:
  "filter is_EthTransfer (concat (map2 (leg_actions pool weth) legs outs)) = []"
  by (induction legs arbitrary: outs) (auto simp: filter_eth_leg_actions split: list.splits prod.splits simp: zip_Cons1)


lemma bundleSwaps_short:
  assumes "swaps \<noteq> []" and "unat (msg_value m) < legs_total swaps"
  shows "bundleSwaps C m w pool weth swaps = Inl (Panic, []) \<or>
         bundleSwaps C m w pool weth swaps = Inl (Require ''Insufficient ETH'', [])"
proof (cases "legs_total swaps < 2 ^ 256")
  case True
  then have "unat (0 :: uint256) + legs_total swaps < 2 ^ 256" by simp
  from totalValue_loop_Some [OF this] obtain T where
    T: "totalValue_loop swaps 0 = Some T" "unat T = legs_total swaps"
    by auto
  with assms(2) have "\<not> T \<le> msg_value m"
    by (simp add: word_le_nat_alt)
  with T assms(1) show ?thesis
    by (simp add: bundleSwaps_def)
next
  case False
  then have "\<not> unat (0 :: uint256) + legs_total swaps < 2 ^ 256" by simp
  from totalValue_loop_None [OF this] assms(1) show ?thesis
    by (simp add: bundleSwaps_def)
qed

lemma bundleSwaps_Inr:
  assumes "bundleSwaps C m w pool weth swaps = Inr (results, w', tr)"
  shows "legs_total swaps \<le> unat (msg_value m)
       \<and> length results = length swaps
       \<and> tr = concat (map2 (leg_actions pool weth) swaps results) @
               (if legs_total swaps < unat (msg_value m)
                then [EthTransfer (msg_sender m) (of_nat (unat (msg_value m) - legs_total swaps))]
                else [])"
proof -
  from assms have ne: "swaps \<noteq> []"
    by (auto simp: bundleSwaps_def)
  from assms ne obtain T where T: "totalValue_loop swaps 0 = Some T" and le: "T \<le> msg_value m"
    by (auto simp: bundleSwaps_def split: option.splits if_splits)
  from assms ne T le obtain remaining w1 tr0 where
    loop: "swaps_loop C pool weth swaps 0 (replicate (length swaps) 0) (msg_value m) w [] =
             Inr ((results, remaining), w1, tr0)" and
    fin: "tr = tr0 @ (if remaining > 0 then [EthTransfer (msg_sender m) remaining] else [])"
    by (auto simp: bundleSwaps_def split: sum.splits option.splits if_splits)
  have "0 + length swaps = length (replicate (length swaps) (0 :: uint256))" by simp
  from swaps_loop_Inr [OF loop this] have
    rem: "unat (msg_value m) = unat remaining + legs_total swaps" and
    len: "length results = length swaps" and
    tr0: "tr0 = concat (map2 (leg_actions pool weth) swaps results)"
    by simp_all
  from rem have "word_of_nat (unat (msg_value m) - legs_total swaps) = remaining"
    by simp
  moreover from rem have "0 < remaining \<longleftrightarrow> legs_total swaps < unat (msg_value m)"
    by (simp add: word_less_nat_alt)
  ultimately show ?thesis
    using rem len tr0 fin by simp
qed

text \<open>
  The world a returning batch leaves: the refund is the transfer the chain performs on the
  world after the legs.
\<close>

lemma bundleSwaps_Inr_world:
  assumes "bundleSwaps C m w pool weth swaps = Inr (results, w', tr)"
  shows "\<exists>remaining w1 tr0.
           swaps_loop C pool weth swaps 0 (replicate (length swaps) 0) (msg_value m) w [] =
             Inr ((results, remaining), w1, tr0)
         \<and> unat remaining = unat (msg_value m) - legs_total swaps
         \<and> Some w' = (if legs_total swaps < unat (msg_value m)
                       then eth_transfer C w1 (msg_sender m) remaining else Some w1)"
proof -
  from assms have ne: "swaps \<noteq> []"
    by (auto simp: bundleSwaps_def)
  from assms ne obtain T where T: "totalValue_loop swaps 0 = Some T" and le: "T \<le> msg_value m"
    by (auto simp: bundleSwaps_def split: option.splits if_splits)
  from assms ne T le obtain remaining w1 tr0 where
    loop: "swaps_loop C pool weth swaps 0 (replicate (length swaps) 0) (msg_value m) w [] =
             Inr ((results, remaining), w1, tr0)" and
    fin: "Some w' = (if remaining > 0 then eth_transfer C w1 (msg_sender m) remaining
                     else Some w1)"
    by (auto simp: bundleSwaps_def split: sum.splits option.splits if_splits)
  have "0 + length swaps = length (replicate (length swaps) (0 :: uint256))" by simp
  from swaps_loop_Inr [OF loop this] have
    rem: "unat (msg_value m) = unat remaining + legs_total swaps"
    by simp
  then have pos: "0 < remaining \<longleftrightarrow> legs_total swaps < unat (msg_value m)"
    by (simp add: word_less_nat_alt)
  from rem have "unat remaining = unat (msg_value m) - legs_total swaps"
    by simp
  with loop fin pos show ?thesis
    by auto
qed

text \<open>
  Claim C1. For a batch that is not empty, with input amounts \<open>a1 .. an\<close> and value \<open>V\<close>:
  if \<open>V < a1 + ... + an\<close> the call reverts before it has made any call or transfer (on
  the overflow of the sum or on \<open>require(msg.value >= totalValue)\<close>); if
  \<open>V \<ge> a1 + ... + an\<close> and the call returns, the ether it has sent is exactly one transfer
  of \<open>V - (a1 + ... + an)\<close> to the sender, and none when the difference is zero, and the
  world it leaves is the one that transfer makes of the world after the legs (that world
  itself when the difference is zero).
\<close>

theorem bundleSwaps_refund_exact:
  assumes "swaps \<noteq> []"
  shows "(unat (msg_value m) < legs_total swaps \<longrightarrow>
            bundleSwaps C m w pool weth swaps = Inl (Panic, []) \<or>
            bundleSwaps C m w pool weth swaps = Inl (Require ''Insufficient ETH'', []))
       \<and> (legs_total swaps \<le> unat (msg_value m) \<longrightarrow>
            returned (bundleSwaps C m w pool weth swaps) = Some results \<longrightarrow>
            filter is_EthTransfer (trace_of (bundleSwaps C m w pool weth swaps)) =
              (if legs_total swaps < unat (msg_value m)
               then [EthTransfer (msg_sender m)
                       (of_nat (unat (msg_value m) - legs_total swaps))]
               else [])
            \<and> (\<exists>remaining w1 tr0.
                  swaps_loop C pool weth swaps 0 (replicate (length swaps) 0) (msg_value m) w [] =
                    Inr ((results, remaining), w1, tr0)
                \<and> unat remaining = unat (msg_value m) - legs_total swaps
                \<and> world_of (bundleSwaps C m w pool weth swaps) =
                    (if legs_total swaps < unat (msg_value m)
                     then eth_transfer C w1 (msg_sender m) remaining else Some w1)))"
proof (intro conjI impI)
  assume "unat (msg_value m) < legs_total swaps"
  with assms show "bundleSwaps C m w pool weth swaps = Inl (Panic, []) \<or>
            bundleSwaps C m w pool weth swaps = Inl (Require ''Insufficient ETH'', [])"
    by (rule bundleSwaps_short)
next
  assume "returned (bundleSwaps C m w pool weth swaps) = Some results"
  then obtain w' tr where r: "bundleSwaps C m w pool weth swaps = Inr (results, w', tr)"
    by (auto simp: returned_def split: sum.splits)
  from bundleSwaps_Inr [OF r] r
  show "filter is_EthTransfer (trace_of (bundleSwaps C m w pool weth swaps)) =
              (if legs_total swaps < unat (msg_value m)
               then [EthTransfer (msg_sender m)
                       (of_nat (unat (msg_value m) - legs_total swaps))]
               else [])"
    by (simp add: trace_of_def filter_eth_legs)
next
  assume "returned (bundleSwaps C m w pool weth swaps) = Some results"
  then obtain w' tr where r: "bundleSwaps C m w pool weth swaps = Inr (results, w', tr)"
    by (auto simp: returned_def split: sum.splits)
  then have "world_of (bundleSwaps C m w pool weth swaps) = Some w'"
    by (simp add: world_of_def)
  with bundleSwaps_Inr_world [OF r]
  show "\<exists>remaining w1 tr0.
                  swaps_loop C pool weth swaps 0 (replicate (length swaps) 0) (msg_value m) w [] =
                    Inr ((results, remaining), w1, tr0)
                \<and> unat remaining = unat (msg_value m) - legs_total swaps
                \<and> world_of (bundleSwaps C m w pool weth swaps) =
                    (if legs_total swaps < unat (msg_value m)
                     then eth_transfer C w1 (msg_sender m) remaining else Some w1)"
    by simp
qed

theorem bundleSwaps_refund_exact_witness:
  "[leg USDC 100, leg USDC 200, leg USDC 300] \<noteq> []
   \<and> legs_total [leg USDC 100, leg USDC 200, leg USDC 300] = 600
   \<and> unat (msg_value (tx 1000)) = 1000
   \<and> returned (bundleSwaps sim_chain (tx 1000) (stocked_world 1000) POOL WETH
          [leg USDC 100, leg USDC 200, leg USDC 300]) = Some [200, 400, 600]
   \<and> filter is_EthTransfer
         (trace_of (bundleSwaps sim_chain (tx 1000) (stocked_world 1000) POOL WETH
            [leg USDC 100, leg USDC 200, leg USDC 300])) = [EthTransfer user 400]
   \<and> ether (stocked_world 1000) user = 0
   \<and> map_option (\<lambda>w. (ether w user, ether w bundler, ether w router))
         (world_of (bundleSwaps sim_chain (tx 1000) (stocked_world 1000) POOL WETH
            [leg USDC 100, leg USDC 200, leg USDC 300])) = Some (400, 0, 600)
   \<and> unat (msg_value (tx 500)) = 500
   \<and> bundleSwaps sim_chain (tx 500) (stocked_world 500) POOL WETH
          [leg USDC 100, leg USDC 200, leg USDC 300] = Inl (Require ''Insufficient ETH'', [])"
proof -
  let ?swaps = "[leg USDC 100, leg USDC 200, leg USDC 300]"
  let ?paid = "bundleSwaps sim_chain (tx 1000) (stocked_world 1000) POOL WETH ?swaps"
  let ?short = "bundleSwaps sim_chain (tx 500) (stocked_world 500) POOL WETH ?swaps"
  have ne: "?swaps \<noteq> []" by simp
  have tot: "legs_total ?swaps = 600"
    by (simp add: legs_total_def leg_def)
  have v: "unat (msg_value (tx 1000)) = 1000" "unat (msg_value (tx 500)) = 500"
    by (simp_all add: tx_def)
  have ret: "returned ?paid = Some [200, 400, 600]"
    by (simp add: bundleSwaps_def returned_def sim_defs Let_def)
  have no_panic: "?short \<noteq> Inl (Panic, [])"
    by (simp add: bundleSwaps_def sim_defs Let_def)
  note paid = bundleSwaps_refund_exact [OF ne, of "tx 1000" sim_chain "stocked_world 1000"
      POOL WETH "[200, 400, 600]", THEN conjunct2, rule_format]
  from tot v have le: "legs_total ?swaps \<le> unat (msg_value (tx 1000))" by simp
  from paid [OF le ret] tot v
  have a: "filter is_EthTransfer (trace_of ?paid) = [EthTransfer (msg_sender (tx 1000)) 400]"
    by simp
  from paid [OF le ret] tot v obtain remaining w1 tr0 where
    loop: "swaps_loop sim_chain POOL WETH ?swaps 0 (replicate (length ?swaps) 0)
             (msg_value (tx 1000)) (stocked_world 1000) [] = Inr (([200, 400, 600], remaining), w1, tr0)"
    and rem: "unat remaining = 400"
    and world: "world_of ?paid = eth_transfer sim_chain w1 (msg_sender (tx 1000)) remaining"
    by auto
  from loop have w1: "ether w1 bundler = 400" "ether w1 user = 0" "ether w1 router = 600"
      "\<not> refuses_ether w1 user"
    by (auto simp: sim_defs Let_def)
  from world rem w1
  have c: "map_option (\<lambda>w. (ether w user, ether w bundler, ether w router)) (world_of ?paid) =
      Some (400, 0, 600)"
    by (simp add: sim_defs)
  have u0: "ether (stocked_world 1000) user = 0"
    by (simp add: sim_defs)
  from bundleSwaps_refund_exact [OF ne, of "tx 500" sim_chain "stocked_world 500" POOL WETH]
    tot v no_panic
  have b: "?short = Inl (Require ''Insufficient ETH'', [])"
    by simp
  from ne tot v ret a b c u0 show ?thesis by (simp add: tx_def)
qed

subsection \<open>Forwarding of the output\<close>





subsection \<open>The obfuscation path\<close>

text \<open>
  The padding loop runs \<open>min(dummyOps, 10)\<close> rounds, for every timestamp small enough for
  the checked \<open>block.timestamp + i\<close> and \<open>dummy * 2\<close> not to overflow.
\<close>

lemma dummy_loop_rounds:
  "unat timestamp + 10 < 2 ^ 255 \<Longrightarrow>
   dummy_loop timestamp dummyOps i = Some (unat (min dummyOps 10) - unat i)"
proof (induction timestamp dummyOps i rule: dummy_loop.induct)
  case (1 timestamp dummyOps i)
  show ?case
  proof (cases "i < dummyOps \<and> i < 10")
    case False
    then have "\<not> i < min dummyOps 10" by auto
    then have "unat (min dummyOps 10) - unat i = 0"
      by (simp add: word_less_nat_alt)
    with False show ?thesis
      by (simp add: dummy_loop.simps [of timestamp dummyOps i])
  next
    case True
    then have "i < min dummyOps 10" by auto
    then have lt: "unat i < unat (min dummyOps 10)"
      by (simp add: word_less_nat_alt)
    from True have i10: "unat i < 10"
      by (simp add: word_less_nat_alt)
    then have suc: "unat (i + 1) = unat i + 1"
      by (simp add: unat_word_ariths)
    have p: "(2::nat) ^ 256 = 2 * 2 ^ 255" by simp
    from i10 "1.prems" have "unat timestamp + unat i < 2 * 2 ^ 255"
      by linarith
    with p have a: "unat timestamp + unat i < 2 ^ 256"
      by (simp only:)
    then have "unat (timestamp + i) = unat timestamp + unat i"
      by (simp add: unat_word_ariths)
    with i10 "1.prems" have "unat (timestamp + i) * 2 < 2 * 2 ^ 255"
      by linarith
    with p have b: "unat (timestamp + i) * 2 < 2 ^ 256"
      by (simp only:)
    from "1.IH" True a b "1.prems"
    have "dummy_loop timestamp dummyOps (i + 1) = Some (unat (min dummyOps 10) - unat (i + 1))"
      by simp
    with True a b suc lt show ?thesis
      by (simp add: dummy_loop.simps [of timestamp dummyOps i] Suc_diff_Suc)
  qed
qed

text \<open>
  A count above the cap gives the same outcome as the cap: it is cut off, not an error.
\<close>

lemma dummy_loop_cap: "dummy_loop timestamp dummyOps i = dummy_loop timestamp (min dummyOps 10) i"
proof (induction timestamp dummyOps i rule: dummy_loop.induct)
  case (1 timestamp dummyOps i)
  have cond: "(i < min dummyOps 10 \<and> i < 10) = (i < dummyOps \<and> i < 10)"
    by auto
  show ?case
  proof (cases "i < dummyOps \<and> i < 10")
    case False
    with cond have "\<not> (i < min dummyOps 10 \<and> i < 10)" by simp
    with False show ?thesis
      by (simp only: dummy_loop.simps [of timestamp dummyOps i]
            dummy_loop.simps [of timestamp "min dummyOps 10" i] if_False)
  next
    case True
    with cond have c': "i < min dummyOps 10 \<and> i < 10" by simp
    show ?thesis
    proof (cases "unat timestamp + unat i < 2 ^ 256 \<and> unat (timestamp + i) * 2 < 2 ^ 256")
      case ok: True
      with 1 True have "dummy_loop timestamp dummyOps (i + 1) =
          dummy_loop timestamp (min dummyOps 10) (i + 1)"
        by simp
      with True c' ok show ?thesis
        by (simp only: dummy_loop.simps [of timestamp dummyOps i]
              dummy_loop.simps [of timestamp "min dummyOps 10" i] if_True not_True_eq_False if_False)
    next
      case bad: False
      with True c' show ?thesis
        by (simp only: dummy_loop.simps [of timestamp dummyOps i]
              dummy_loop.simps [of timestamp "min dummyOps 10" i]) auto
    qed
  qed
qed

lemma bundleSwapWithObfuscation_cap:
  "bundleSwapWithObfuscation C m w pool weth params dummyOps =
   bundleSwapWithObfuscation C m w pool weth params (min dummyOps 10)"
  unfolding bundleSwapWithObfuscation_def
  by (subst dummy_loop_cap) (rule refl)

lemma bundleSwapWithObfuscation_15_10:
  "bundleSwapWithObfuscation C m w pool weth params 15 =
   bundleSwapWithObfuscation C m w pool weth params 10"
  using bundleSwapWithObfuscation_cap [of C m w pool weth params 15] by simp

text \<open>With token-out address zero the path is the single-swap path behind the padding.\<close>

lemma obfuscation_same_without_token:
  "tokenOut params = 0 \<Longrightarrow> dummy_loop (block_timestamp m) dummyOps 0 \<noteq> None \<Longrightarrow>
   bundleSwapWithObfuscation C m w pool weth params dummyOps = bundleSwap C m w pool weth params"
  by (auto simp: bundleSwapWithObfuscation_def bundleSwap_def Let_def split: option.splits)

text \<open>
  Claim C7. The padding is capped as claimed (the lemmas above). The rest of the
  path is not the single-swap path: after the router call it transfers the output to the
  recipient once more, which \<open>bundleSwap\<close> does not. With a router that pays the recipient
  itself and a bundler that holds no output tokens, \<open>bundleSwap\<close> returns and
  \<open>bundleSwapWithObfuscation\<close> with no padding reverts in that transfer; with a bundler
  that holds output tokens it pays the recipient a second time.
\<close>

theorem obfuscation_differs_from_single_swap:
  "returned (bundleSwap sim_chain (tx 1000) (fresh_world 1000) POOL WETH (leg USDC 1000)) = Some 2000
   \<and> trace_of (bundleSwap sim_chain (tx 1000) (fresh_world 1000) POOL WETH (leg USDC 1000)) =
       [RouterCall 1000 POOL WETH (leg USDC 1000),
        SwapBundled user WETH USDC 1000 2000 1705001000]
   \<and> reverted (bundleSwapWithObfuscation sim_chain (tx 1000) (fresh_world 1000) POOL WETH
        (leg USDC 1000) 0) = Some CallReverted
   \<and> trace_of (bundleSwapWithObfuscation sim_chain (tx 1000) (fresh_world 1000) POOL WETH
        (leg USDC 1000) 0) =
       [RouterCall 1000 POOL WETH (leg USDC 1000), TokenTransfer USDC user 2000]
   \<and> trace_of (bundleSwapWithObfuscation sim_chain (tx 1000) (stocked_world 1000) POOL WETH
        (leg USDC 1000) 0) =
       [RouterCall 1000 POOL WETH (leg USDC 1000), TokenTransfer USDC user 2000,
        SwapBundled user WETH USDC 1000 2000 1705001000]"
  by (simp add: bundleSwap_def bundleSwapWithObfuscation_def dummy_loop.simps returned_def
        reverted_def trace_of_def sim_defs Let_def)

subsection \<open>\<open>withdraw\<close>\<close>




end
